theory Spec2Isabelle
  imports Complex_Main
begin

section \<open>Atlas decoding pipeline of atlas-divisions-site\<close>

text \<open>
  The development embeds the three scripts that turn a light-pollution atlas into a
  lightmap: \<^verbatim>\<open>scripts/kmeans_atlas_analysis.py\<close> (calibration of K-means clusters
  against the Cinzano table), \<^verbatim>\<open>scripts/decode_atlas_lightmap_kmeans.py\<close> (per-pixel
  remapping) and \<^verbatim>\<open>scripts/process_grayscale_atlas.py\<close> (direct grayscale path).

  Conventions of the embedding:
  \<^item> Python integers are \<open>int\<close>; counts, cluster ids and 8-bit array cells are \<open>nat\<close>,
    and every store into an 8-bit array is written out with its range check;
  \<^item> a floating-point number is the real number it denotes. In the analysis, where the
    rank of a cluster depends on the rounding, every float64 operation is the exact
    operation followed by a rounding function \<open>rnd\<close>, a parameter of the functions: the
    theorems hold for every rounding, and the concrete runs use \<open>float64_round\<close>, the
    rounding of IEEE 754 double precision. In the two decoders the floating-point
    operations are modelled by the exact ones;
  \<^item> a raised exception is a value \<open>Inl e\<close> of a sum type;
  \<^item> the results of the external libraries (the labels and centres computed by
    K-means, the resized pixel grid) are inputs of the functions below.
\<close>

subsection \<open>Errors\<close>

text \<open>
  The first three are Python exceptions. \<open>UndefinedCast\<close> is not an exception: it marks a
  conversion of a floating-point number outside \<open>[0, 256)\<close> to an 8-bit integer, whose
  result neither NumPy nor C defines; the model stops there instead of inventing a value.
\<close>

datatype error = IndexError | OverflowError | ZeroDivisionError | UndefinedCast

text \<open>Running a computation over every cell of an array stops at the first error.\<close>

fun collect :: "('e + 'a) list \<Rightarrow> 'e + 'a list" where
  "collect [] = Inr []"
| "collect (x # xs) =
     (case x of
        Inl e \<Rightarrow> Inl e
      | Inr v \<Rightarrow> (case collect xs of Inl e \<Rightarrow> Inl e | Inr vs \<Rightarrow> Inr (v # vs)))"

definition collect_grid :: "('a \<Rightarrow> 'e + 'b) \<Rightarrow> 'a list list \<Rightarrow> 'e + 'b list list" where
  "collect_grid f grid = collect (map (\<lambda>row. collect (map f row)) grid)"

subsection \<open>The calibration table (\<^verbatim>\<open>kmeans_atlas_analysis.py\<close>, lines 122--139)\<close>

type_synonym category = "string \<times> string \<times> int"

definition cinzano_categories :: "category list" where
  "cinzano_categories =
    [(''Black 1'', ''<0.01'', 0),
     (''Black 2'', ''0.01-0.06'', 8),
     (''Dark Gray 1'', ''0.06-0.11'', 16),
     (''Dark Gray 2'', ''0.11-0.19'', 24),
     (''Blue 1'', ''0.19-0.33'', 32),
     (''Blue 2'', ''0.33-0.58'', 48),
     (''Green 1'', ''0.58-1.00'', 64),
     (''Green 2'', ''1.00-1.73'', 80),
     (''Yellow 1'', ''1.73-3.00'', 96),
     (''Yellow 2'', ''3.00-5.20'', 128),
     (''Orange 1'', ''5.20-9.00'', 160),
     (''Orange 2'', ''9.00-15.59'', 192),
     (''Red 1'', ''15.59-27.00'', 224),
     (''Red 2'', ''27.00-46.77'', 240),
     (''White 1'', ''>46.77'', 255),
     (''White 2/Border'', ''Border'', 0)]"

text \<open>The three columns of a table row.\<close>

definition category_name :: "category \<Rightarrow> string" where
  "category_name c = fst c"

definition category_ratio_range :: "category \<Rightarrow> string" where
  "category_ratio_range c = fst (snd c)"

definition category_intensity :: "category \<Rightarrow> int" where
  "category_intensity c = snd (snd c)"

subsection \<open>Cluster statistics (\<^verbatim>\<open>kmeans_atlas_analysis.py\<close>, lines 82--112)\<close>

text \<open>
  K-means itself is a library call. Its two results are the inputs of the model:
  \<open>cluster_labels\<close>, the cluster id of every sampled pixel, and \<open>cluster_centers\<close>,
  the centroid of every cluster, three floating-point channels each.
\<close>

type_synonym center = "real \<times> real \<times> real"

text \<open>A Python dictionary keeps insertion order; assignment replaces in place.\<close>

fun dict_set :: "'k \<Rightarrow> 'v \<Rightarrow> ('k \<times> 'v) list \<Rightarrow> ('k \<times> 'v) list" where
  "dict_set k v [] = [(k, v)]"
| "dict_set k v ((k', v') # kvs) =
     (if k' = k then (k, v) # kvs else (k', v') # dict_set k v kvs)"

text \<open>\<^verbatim>\<open>Counter(cluster_labels)\<close>: one entry per label, in order of first occurrence.\<close>

fun counter_add :: "nat \<Rightarrow> (nat \<times> nat) list \<Rightarrow> (nat \<times> nat) list" where
  "counter_add l [] = [(l, 1)]"
| "counter_add l ((k, n) # kvs) =
     (if k = l then (k, n + 1) # kvs else (k, n) # counter_add l kvs)"

definition Counter :: "nat list \<Rightarrow> (nat \<times> nat) list" where
  "Counter cluster_labels = fold counter_add cluster_labels []"

text \<open>
  \<^verbatim>\<open>sorted(cluster_counts.items(), key=lambda x: x[1], reverse=True)\<close>: Python's sort
  is stable, also with \<^verbatim>\<open>reverse=True\<close>, so it is the stable sort on the negated count.
\<close>

definition sorted_clusters :: "nat list \<Rightarrow> (nat \<times> nat) list" where
  "sorted_clusters cluster_labels =
     sort_key (\<lambda>x. - int (snd x)) (Counter cluster_labels)"

text \<open>\<^verbatim>\<open>int(c)\<close> on a float truncates towards zero.\<close>

definition py_int :: "real \<Rightarrow> int" where
  "py_int c = (if 0 \<le> c then \<lfloor>c\<rfloor> else \<lceil>c\<rceil>)"

definition classify_cluster_color :: "int \<times> int \<times> int \<Rightarrow> real \<Rightarrow> string" where
  "classify_cluster_color rgb brightness =
     (if brightness < 10 then ''Very Dark''
      else if brightness < 30 then ''Dark''
      else if brightness < 60 then ''Medium Dark''
      else if brightness < 100 then ''Medium''
      else if brightness < 150 then ''Medium Light''
      else if brightness < 200 then ''Light''
      else ''Very Light'')"

record cluster_data =
  rgb :: "int \<times> int \<times> int"
  count :: nat
  percentage :: real
  brightness :: real
  color_type :: string

text \<open>
  Arithmetic on float64 numbers: each operation delivers the exact result rounded to a
  float64 number by \<open>rnd\<close>. Which number that is, is left open: \<open>rnd\<close> is a parameter.
\<close>

definition float_add :: "(real \<Rightarrow> real) \<Rightarrow> real \<Rightarrow> real \<Rightarrow> real" where
  "float_add rnd x y = rnd (x + y)"

definition float_mul :: "(real \<Rightarrow> real) \<Rightarrow> real \<Rightarrow> real \<Rightarrow> real" where
  "float_mul rnd x y = rnd (x * y)"

definition float_div :: "(real \<Rightarrow> real) \<Rightarrow> real \<Rightarrow> real \<Rightarrow> real" where
  "float_div rnd x y = rnd (x / y)"

text \<open>
  The rounding of float64 (IEEE 754 double precision) arithmetic: to the nearest number
  with 53 significant bits, a tie going to the even significand. For \<open>2 ^ e \<le> |x| <
  2 ^ (e + 1)\<close> these numbers are the multiples of \<open>2 ^ (e - 52)\<close>. Numbers beyond the
  normal range of the format (overflow, subnormal numbers) are not distinguished; the
  brightness of a pixel colour is far from both.
\<close>

definition pow2 :: "int \<Rightarrow> real" where
  "pow2 e = (if 0 \<le> e then 2 ^ nat e else 1 / 2 ^ nat (- e))"

definition round_half_even :: "real \<Rightarrow> int" where
  "round_half_even x =
     (if x - of_int \<lfloor>x\<rfloor> < 1 / 2 then \<lfloor>x\<rfloor>
      else if 1 / 2 < x - of_int \<lfloor>x\<rfloor> then \<lfloor>x\<rfloor> + 1
      else if even \<lfloor>x\<rfloor> then \<lfloor>x\<rfloor> else \<lfloor>x\<rfloor> + 1)"

definition float64_round :: "real \<Rightarrow> real" where
  "float64_round x =
     (if x = 0 then 0
      else let e = \<lfloor>log 2 \<bar>x\<bar>\<rfloor>; ulp = pow2 (e - 52)
           in ulp * of_int (round_half_even (x / ulp)))"

text \<open>
  \<^verbatim>\<open>sum(center)\<close>: Python's \<^verbatim>\<open>sum\<close> starts from 0 and adds the three channels from left
  to right, rounding after every addition.
\<close>

definition py_sum :: "(real \<Rightarrow> real) \<Rightarrow> center \<Rightarrow> real" where
  "py_sum rnd center =
     (case center of (cr, cg, cb) \<Rightarrow>
        float_add rnd (float_add rnd (float_add rnd 0 cr) cg) cb)"

text \<open>
  The body of the loop of lines 93--112 for one cluster: \<open>n\<close> is \<^verbatim>\<open>len(pixels)\<close>, the
  percentage is \<^verbatim>\<open>(count / len(pixels)) * 100\<close> and the brightness is
  \<^verbatim>\<open>sum(center) / 3\<close>, all three in float64 arithmetic.
\<close>

definition cluster_entry :: "(real \<Rightarrow> real) \<Rightarrow> nat \<Rightarrow> center \<Rightarrow> nat \<Rightarrow> cluster_data" where
  "cluster_entry rnd n center cnt =
     (case center of (cr, cg, cb) \<Rightarrow>
        \<lparr>cluster_data.rgb = (py_int cr, py_int cg, py_int cb),
         count = cnt,
         percentage = float_mul rnd (float_div rnd (real cnt) (real n)) 100,
         brightness = float_div rnd (py_sum rnd center) 3,
         color_type = classify_cluster_color (py_int cr, py_int cg, py_int cb)
                        (float_div rnd (py_sum rnd center) 3)\<rparr>)"

text \<open>
  The loop itself. \<^verbatim>\<open>cluster_centers[cluster_id]\<close> raises IndexError for an id without
  a centre; the exception leaves the function through its \<^verbatim>\<open>except\<close> clause.
\<close>

fun color_mapping_loop ::
  "(real \<Rightarrow> real) \<Rightarrow> center list \<Rightarrow> nat \<Rightarrow> (nat \<times> nat) list
     \<Rightarrow> (nat \<times> cluster_data) list \<Rightarrow> error + (nat \<times> cluster_data) list" where
  "color_mapping_loop rnd cluster_centers n [] color_mapping = Inr color_mapping"
| "color_mapping_loop rnd cluster_centers n ((cluster_id, cnt) # rest) color_mapping =
     (if cluster_id < length cluster_centers
      then color_mapping_loop rnd cluster_centers n rest
             (dict_set cluster_id (cluster_entry rnd n (cluster_centers ! cluster_id) cnt)
                color_mapping)
      else Inl IndexError)"

subsection \<open>Calibration (\<^verbatim>\<open>kmeans_atlas_analysis.py\<close>, lines 114--157)\<close>

text \<open>
  \<^verbatim>\<open>sorted(color_mapping.items(), key=lambda x: x[1]['brightness'])\<close>, a stable sort on
  the brightness stored in the entry, that is on the rounded value.
\<close>

definition brightness_sorted ::
  "(nat \<times> cluster_data) list \<Rightarrow> (nat \<times> cluster_data) list" where
  "brightness_sorted color_mapping = sort_key (\<lambda>x. brightness (snd x)) color_mapping"

record mapping_entry =
  rgb :: "int \<times> int \<times> int"
  category :: string
  intensity :: int
  ratio_range :: string

definition final_entry :: "category \<Rightarrow> cluster_data \<Rightarrow> mapping_entry" where
  "final_entry c cluster_data =
     \<lparr>mapping_entry.rgb = cluster_data.rgb cluster_data,
      category = category_name c,
      intensity = category_intensity c,
      ratio_range = category_ratio_range c\<rparr>"

text \<open>
  The loop of lines 143--155 over \<^verbatim>\<open>enumerate(brightness_sorted)\<close>, with the counter
  \<open>i\<close> and the dictionary \<open>final_mapping\<close> as state. A cluster whose rank is not below
  the length of the table is skipped.
\<close>

fun final_mapping_loop ::
  "nat \<Rightarrow> (nat \<times> cluster_data) list \<Rightarrow> (nat \<rightharpoonup> mapping_entry)
     \<Rightarrow> (nat \<rightharpoonup> mapping_entry)" where
  "final_mapping_loop i [] final_mapping = final_mapping"
| "final_mapping_loop i ((cluster_id, cluster_data) # rest) final_mapping =
     final_mapping_loop (i + 1) rest
       (if i < length cinzano_categories
        then final_mapping(cluster_id \<mapsto> final_entry (cinzano_categories ! i) cluster_data)
        else final_mapping)"

text \<open>
  \<^verbatim>\<open>analyze_atlas_with_kmeans\<close> from the clustering onwards. The source returns the
  mapping together with the K-means model, which it passes on unchanged.
\<close>

definition analyze_atlas_with_kmeans ::
  "(real \<Rightarrow> real) \<Rightarrow> nat list \<Rightarrow> center list \<Rightarrow> error + (nat \<rightharpoonup> mapping_entry)" where
  "analyze_atlas_with_kmeans rnd cluster_labels cluster_centers =
     (case color_mapping_loop rnd cluster_centers (length cluster_labels)
             (sorted_clusters cluster_labels) [] of
        Inl e \<Rightarrow> Inl e
      | Inr color_mapping \<Rightarrow>
          Inr (final_mapping_loop 0 (brightness_sorted color_mapping) Map.empty))"

subsection \<open>Pillow's contrast enhancement\<close>

text \<open>
  Both decoders finish with \<^verbatim>\<open>ImageEnhance.Contrast(lightmap_img).enhance(factor)\<close> on
  an 8-bit single-channel image. This is library code; the model follows the library:
  the enhancer blends the uniform image of the mean grey level (\<^verbatim>\<open>int(mean + 0.5)\<close>) with
  the image, \<open>out = grey + factor * (pixel - grey)\<close>. For a factor in \<open>[0, 1]\<close> the result is
  converted to 8 bits directly; for any other factor it is clipped to \<open>[0, 255]\<close> first.
  The mean of an image without pixels raises ZeroDivisionError.
\<close>

type_synonym gray_image = "nat list list"

definition stat_mean :: "gray_image \<Rightarrow> error + real" where
  "stat_mean img =
     (if length (concat img) = 0 then Inl ZeroDivisionError
      else Inr (real (sum_list (concat img)) / real (length (concat img))))"

definition blend_pixel :: "real \<Rightarrow> int \<Rightarrow> nat \<Rightarrow> nat" where
  "blend_pixel alpha in1 in2 =
     (let temp = real_of_int in1 + alpha * (real in2 - real_of_int in1)
      in if 0 \<le> alpha \<and> alpha \<le> 1 then nat (py_int temp)
         else if temp \<le> 0 then 0
         else if 255 \<le> temp then 255
         else nat (py_int temp))"

definition Contrast_enhance :: "real \<Rightarrow> gray_image \<Rightarrow> error + gray_image" where
  "Contrast_enhance factor img =
     (case stat_mean img of
        Inl e \<Rightarrow> Inl e
      | Inr mean \<Rightarrow> Inr (map (map (blend_pixel factor (py_int (mean + 0.5)))) img))"

text \<open>\<^verbatim>\<open>convert('RGB')\<close> of a single-channel image repeats the value in each channel.\<close>

type_synonym pixel = "nat \<times> nat \<times> nat"

definition convert_RGB :: "gray_image \<Rightarrow> pixel list list" where
  "convert_RGB img = map (map (\<lambda>v. (v, v, v))) img"

subsection \<open>Classified strategy (\<^verbatim>\<open>decode_atlas_lightmap_kmeans.py\<close>)\<close>

text \<open>
  The trained K-means model is used through \<^verbatim>\<open>predict\<close> only, so it is modelled by that
  method: a function from a pixel to the id of its nearest cluster.
\<close>

type_synonym kmeans_model = "pixel \<Rightarrow> nat"

definition find_closest_cluster :: "pixel \<Rightarrow> kmeans_model \<Rightarrow> nat" where
  "find_closest_cluster pixel_rgb kmeans_model = kmeans_model pixel_rgb"

text \<open>Lines 124--132: the intensity chosen for a pixel of cluster \<open>cluster_id\<close>.\<close>

definition pixel_intensity :: "(nat \<rightharpoonup> mapping_entry) \<Rightarrow> nat \<Rightarrow> int" where
  "pixel_intensity color_mapping cluster_id =
     (case color_mapping cluster_id of
        Some entry \<Rightarrow>
          (if category entry = ''White 2/Border'' then 0 else intensity entry)
      | None \<Rightarrow> 0)"

text \<open>
  Line 134 stores the Python integer into an array of unsigned 8-bit cells. NumPy
  refuses an integer outside \<open>0..255\<close> with OverflowError (releases before 2.0 wrapped
  it around instead); the theorems below only rely on stores of values within the range,
  where all releases agree.
\<close>

definition store_uint8 :: "int \<Rightarrow> error + nat" where
  "store_uint8 v = (if 0 \<le> v \<and> v \<le> 255 then Inr (nat v) else Inl OverflowError)"

definition lightmap_cell :: "(nat \<rightharpoonup> mapping_entry) \<Rightarrow> kmeans_model \<Rightarrow> pixel \<Rightarrow> error + nat" where
  "lightmap_cell color_mapping kmeans_model pixel_rgb =
     store_uint8 (pixel_intensity color_mapping (find_closest_cluster pixel_rgb kmeans_model))"

text \<open>Lines 112--134: the lightmap before post-processing.\<close>

definition lightmap_array ::
  "(nat \<rightharpoonup> mapping_entry) \<Rightarrow> kmeans_model \<Rightarrow> pixel list list \<Rightarrow> error + gray_image" where
  "lightmap_array color_mapping kmeans_model img_array =
     collect_grid (lightmap_cell color_mapping kmeans_model) img_array"

text \<open>
  \<^verbatim>\<open>decode_atlas_to_lightmap_kmeans\<close> from the resized grid to the image that is saved.
\<close>

definition decode_atlas_to_lightmap_kmeans ::
  "(nat \<rightharpoonup> mapping_entry) \<Rightarrow> kmeans_model \<Rightarrow> pixel list list \<Rightarrow> error + pixel list list" where
  "decode_atlas_to_lightmap_kmeans color_mapping kmeans_model img_array =
     (case lightmap_array color_mapping kmeans_model img_array of
        Inl e \<Rightarrow> Inl e
      | Inr lightmap \<Rightarrow>
          (case Contrast_enhance 1.3 lightmap of
             Inl e \<Rightarrow> Inl e
           | Inr enhanced_img \<Rightarrow> Inr (convert_RGB enhanced_img)))"

subsection \<open>Direct-channel strategy (\<^verbatim>\<open>process_grayscale_atlas.py\<close>)\<close>

text \<open>The NumPy operations of lines 62--78 work cell by cell; these are the cell functions.\<close>

definition grayscale_value :: "pixel \<Rightarrow> real" where
  "grayscale_value p = real (fst p)"

definition max_atlas_value :: real where
  "max_atlas_value = 37.0"

definition np_clip :: "real \<Rightarrow> real \<Rightarrow> real \<Rightarrow> real" where
  "np_clip a a_min a_max = min (max a a_min) a_max"

definition normalized :: "real \<Rightarrow> real" where
  "normalized g = np_clip (g / max_atlas_value) 0 1"

definition enhanced :: "real \<Rightarrow> real" where
  "enhanced x = x powr 0.7"

definition astype_uint8 :: "real \<Rightarrow> error + nat" where
  "astype_uint8 v = (if 0 \<le> v \<and> v < 256 then Inr (nat (py_int v)) else Inl UndefinedCast)"

definition grayscale_cell :: "pixel \<Rightarrow> error + nat" where
  "grayscale_cell p = astype_uint8 (enhanced (normalized (grayscale_value p)) * 255)"

definition grayscale_lightmap :: "pixel list list \<Rightarrow> error + gray_image" where
  "grayscale_lightmap img_array = collect_grid grayscale_cell img_array"

text \<open>\<^verbatim>\<open>process_grayscale_atlas\<close> from the resized grid to the image that is saved.\<close>

definition process_grayscale_atlas :: "pixel list list \<Rightarrow> error + pixel list list" where
  "process_grayscale_atlas img_array =
     (case grayscale_lightmap img_array of
        Inl e \<Rightarrow> Inl e
      | Inr lightmap \<Rightarrow>
          (case Contrast_enhance 1.2 lightmap of
             Inl e \<Rightarrow> Inl e
           | Inr contrasted \<Rightarrow> Inr (convert_RGB contrasted)))"

subsection \<open>Notions of the specification\<close>

text \<open>
  The specification speaks of the brightness of a cluster, "the mean of its three channel
  values", of the border flag of a bound category, and of the direct-channel formula.
  They are written here after the specification's words and compared with the code below.

  The mean of three float64 channels is itself computed in float64 arithmetic: the sum
  of the channels, one after the other, divided by 3. \<open>centroid_brightness\<close> is that
  computed mean, for the rounding \<open>rnd\<close>; \<open>arithmetic_mean\<close> is the mean of the real
  numbers, which the computed mean approximates and equals where nothing is rounded.
\<close>

definition arithmetic_mean :: "center \<Rightarrow> real" where
  "arithmetic_mean c = (case c of (r, g, b) \<Rightarrow> (r + g + b) / 3)"

definition centroid_brightness :: "(real \<Rightarrow> real) \<Rightarrow> center list \<Rightarrow> nat \<Rightarrow> real" where
  "centroid_brightness rnd cluster_centers cluster_id =
     (case cluster_centers ! cluster_id of
        (r, g, b) \<Rightarrow> rnd (rnd (rnd (rnd (0 + r) + g) + b) / 3))"

text \<open>The mapping has no flag of its own: the decoder reads it off the category name.\<close>

definition is_border :: "mapping_entry \<Rightarrow> bool" where
  "is_border entry = (category entry = ''White 2/Border'')"

text \<open>
  The direct-channel intensity: the raw value normalised against 37, clamped to \<open>[0, 1]\<close>,
  raised to the power 0.7, multiplied by 255 and truncated.
\<close>

definition clamp01 :: "real \<Rightarrow> real" where
  "clamp01 x = (if x < 0 then 0 else if 1 < x then 1 else x)"

definition direct_channel_spec :: "nat \<Rightarrow> nat" where
  "direct_channel_spec raw = nat \<lfloor>(clamp01 (real raw / 37)) powr (7 / 10) * 255\<rfloor>"

text \<open>The range invariant of an 8-bit image, single-channel or RGB.\<close>

definition gray_in_range :: "gray_image \<Rightarrow> bool" where
  "gray_in_range img = list_all (list_all (\<lambda>v. v \<le> 255)) img"

definition rgb_in_range :: "pixel list list \<Rightarrow> bool" where
  "rgb_in_range img = list_all (list_all (\<lambda>(r, g, b). r \<le> 255 \<and> g \<le> 255 \<and> b \<le> 255)) img"

section \<open>Properties\<close>

subsection \<open>Dictionaries and the two loops of the analysis\<close>

lemma keys_counter_add:
  "map fst (counter_add l kvs) =
     (if l \<in> fst ` set kvs then map fst kvs else map fst kvs @ [l])"
  by (induction kvs) force+

lemma keys_fold_counter_add:
  "distinct (map fst acc) \<Longrightarrow>
     distinct (map fst (fold counter_add ls acc))
     \<and> fst ` set (fold counter_add ls acc) = fst ` set acc \<union> set ls"
proof (induction ls arbitrary: acc)
  case Nil
  then show ?case by simp
next
  case (Cons l ls)
  have d: "distinct (map fst (counter_add l acc))"
    using Cons.prems by (auto simp: keys_counter_add)
  have s: "fst ` set (counter_add l acc) = insert l (fst ` set acc)"
  proof -
    have "set (map fst (counter_add l acc)) = insert l (set (map fst acc))"
      unfolding keys_counter_add by auto
    then show ?thesis by simp
  qed
  from Cons.IH [OF d] s show ?case by auto
qed

lemma distinct_keys_Counter: "distinct (map fst (Counter ls))"
  using keys_fold_counter_add [of "[]" ls] by (simp add: Counter_def)

lemma keys_Counter: "fst ` set (Counter ls) = set ls"
  using keys_fold_counter_add [of "[]" ls] by (simp add: Counter_def)

lemma distinct_map_sort_key:
  "distinct (map g (sort_key f xs)) = distinct (map g xs)"
  by (simp add: distinct_map)

lemma distinct_keys_sorted_clusters: "distinct (map fst (sorted_clusters ls))"
  by (simp add: sorted_clusters_def distinct_map_sort_key distinct_keys_Counter)

lemma keys_sorted_clusters: "fst ` set (sorted_clusters ls) = set ls"
  by (simp add: sorted_clusters_def keys_Counter)

lemma dict_set_fresh: "k \<notin> fst ` set kvs \<Longrightarrow> dict_set k v kvs = kvs @ [(k, v)]"
  by (induction kvs) auto

lemma color_mapping_loop_ok:
  assumes "distinct (map fst xs)"
    and "fst ` set xs \<inter> fst ` set acc = {}"
    and "\<forall>x \<in> set xs. fst x < length cs"
  shows "color_mapping_loop rnd cs n xs acc =
           Inr (acc @ map (\<lambda>x. (fst x, cluster_entry rnd n (cs ! fst x) (snd x))) xs)"
  using assms
proof (induction xs arbitrary: acc)
  case Nil
  then show ?case by simp
next
  case (Cons x xs)
  obtain cid cnt where x: "x = (cid, cnt)" by (cases x)
  from Cons.prems x have fresh: "cid \<notin> fst ` set acc" by auto
  let ?acc = "acc @ [(cid, cluster_entry rnd n (cs ! cid) cnt)]"
  have "color_mapping_loop rnd cs n xs ?acc =
          Inr (?acc @ map (\<lambda>x. (fst x, cluster_entry rnd n (cs ! fst x) (snd x))) xs)"
    using Cons.prems x by (intro Cons.IH) auto
  with Cons.prems x fresh show ?case
    by (simp add: dict_set_fresh)
qed

lemma final_mapping_loop_other:
  "k \<notin> fst ` set bs \<Longrightarrow> final_mapping_loop i bs fm k = fm k"
  by (induction bs arbitrary: i fm) auto

lemma final_mapping_loop_nth:
  assumes "distinct (map fst bs)" and "j < length bs"
  shows "final_mapping_loop i bs fm (fst (bs ! j)) =
           (if i + j < length cinzano_categories
            then Some (final_entry (cinzano_categories ! (i + j)) (snd (bs ! j)))
            else fm (fst (bs ! j)))"
  using assms
proof (induction bs arbitrary: i fm j)
  case Nil
  then show ?case by simp
next
  case (Cons b bs)
  obtain cid d where b: "b = (cid, d)" by (cases b)
  show ?case
  proof (cases j)
    case 0
    with Cons.prems b show ?thesis
      by (simp add: final_mapping_loop_other)
  next
    case (Suc j')
    from Cons.prems Suc have "bs ! j' \<in> set bs" by simp
    then have "fst (bs ! j') \<in> fst ` set bs" by (rule imageI)
    with Cons.prems b have neq: "fst (bs ! j') \<noteq> cid" by auto
    from Cons.prems Suc have "final_mapping_loop (i + 1) bs
             (if i < length cinzano_categories
              then fm(cid \<mapsto> final_entry (cinzano_categories ! i) d) else fm) (fst (bs ! j')) =
           (if (i + 1) + j' < length cinzano_categories
            then Some (final_entry (cinzano_categories ! ((i + 1) + j')) (snd (bs ! j')))
            else (if i < length cinzano_categories
              then fm(cid \<mapsto> final_entry (cinzano_categories ! i) d) else fm) (fst (bs ! j')))"
      by (intro Cons.IH) auto
    with Suc b neq show ?thesis by auto
  qed
qed

subsection \<open>The table\<close>

lemma length_cinzano_categories: "length cinzano_categories = 16"
  by (simp add: cinzano_categories_def)

lemma cinzano_intensity_column:
  "map category_intensity cinzano_categories =
     [0, 8, 16, 24, 32, 48, 64, 80, 96, 128, 160, 192, 224, 240, 255, 0]"
  by (simp add: cinzano_categories_def category_intensity_def)

lemma cinzano_data_intensities_sorted:
  "sorted (take 15 (map category_intensity cinzano_categories))"
  by (simp add: cinzano_intensity_column)

text \<open>
  Claim C1, as stated: the intensity column of the 16-entry table is non-decreasing in
  the rank, the last entry included. It fails at the last two rows: rank 14
  (\<open>White 1\<close>) carries 255 and rank 15 (\<open>White 2/Border\<close>) carries 0.
\<close>

theorem cinzano_intensity_last_drops:
  "(14::nat) < 15 \<and> 15 < length cinzano_categories \<and>
   \<not> category_intensity (cinzano_categories ! 14)
       \<le> category_intensity (cinzano_categories ! 15)"
  by (simp add: cinzano_categories_def category_intensity_def)

text \<open>
  Claim C1, amended: over the fifteen data categories (ranks 0 to 14, every row but the
  last) the intensity is non-decreasing in the rank; the last row is the border
  category \<open>White 2/Border\<close> and carries intensity 0.
\<close>

theorem cinzano_intensity_mono_data:
  assumes "i < j" and "j < 15"
  shows "category_intensity (cinzano_categories ! i)
           \<le> category_intensity (cinzano_categories ! j)
         \<and> category_name (cinzano_categories ! 15) = ''White 2/Border''
         \<and> category_intensity (cinzano_categories ! 15) = 0"
proof -
  let ?col = "take 15 (map category_intensity cinzano_categories)"
  have len: "length ?col = 15"
    by (simp add: length_cinzano_categories)
  from assms have "?col ! i \<le> ?col ! j"
    using cinzano_data_intensities_sorted len
    by (intro sorted_nth_mono) simp_all
  moreover from assms have "?col ! i = category_intensity (cinzano_categories ! i)"
    and "?col ! j = category_intensity (cinzano_categories ! j)"
    by (simp_all add: length_cinzano_categories)
  ultimately show ?thesis
    by (simp add: cinzano_categories_def category_intensity_def category_name_def)
qed

theorem cinzano_intensity_mono_data_witness:
  "(3::nat) < 10 \<and> (10::nat) < 15
   \<and> category_intensity (cinzano_categories ! 3) = 24
   \<and> category_intensity (cinzano_categories ! 10) = 160
   \<and> category_intensity (cinzano_categories ! 3)
        \<le> category_intensity (cinzano_categories ! 10)"
  using cinzano_intensity_mono_data [of 3 10]
  by (simp add: cinzano_categories_def category_intensity_def)

subsection \<open>Rounding to float64\<close>

lemma pow2_powr: "pow2 e = 2 powr (of_int e)"
  by (simp add: pow2_def powr_real_of_int field_simps)

lemma pow2_pos: "0 < pow2 e"
  by (simp add: pow2_powr)

lemma float64_exponent:
  assumes "pow2 e \<le> \<bar>x\<bar>" and "\<bar>x\<bar> < pow2 (e + 1)"
  shows "\<lfloor>log 2 \<bar>x\<bar>\<rfloor> = e"
proof -
  have pos: "0 < \<bar>x\<bar>"
    using pow2_pos [of e] assms(1) by linarith
  from assms(1) pos have "of_int e \<le> log 2 \<bar>x\<bar>"
    by (simp add: pow2_powr le_log_iff)
  moreover from assms(2) pos have "log 2 \<bar>x\<bar> < of_int e + 1"
    by (simp add: pow2_powr log_less_iff)
  ultimately show ?thesis by (intro floor_unique) simp_all
qed

text \<open>The rounding of a number whose binary exponent \<open>e\<close> is known.\<close>

lemma float64_round_eval:
  assumes "pow2 e \<le> \<bar>x\<bar>" and "\<bar>x\<bar> < pow2 (e + 1)"
  shows "float64_round x = pow2 (e - 52) * of_int (round_half_even (x / pow2 (e - 52)))"
proof -
  from pow2_pos [of e] assms(1) have "x \<noteq> 0"
    by auto
  then show ?thesis
    by (simp add: float64_round_def float64_exponent [OF assms] Let_def)
qed

text \<open>
  The roundings that the concrete runs below need. The integers are float64 numbers and
  stay as they are. \<open>128 + 2 ^ - 46\<close> lies halfway between two float64 numbers and goes to
  the even one, 128; \<open>128 + 3 * 2 ^ - 47\<close> goes up to \<open>128 + 2 ^ - 45\<close>.
\<close>

lemma float64_round_0: "float64_round 0 = 0"
  by (simp add: float64_round_def)

lemma float64_round_128: "float64_round 128 = 128"
  by (simp add: float64_round_eval [of 7] pow2_def round_half_even_def)

lemma float64_round_200: "float64_round 200 = 200"
  by (simp add: float64_round_eval [of 7] pow2_def round_half_even_def)

lemma float64_round_400: "float64_round 400 = 400"
  by (simp add: float64_round_eval [of 8] pow2_def round_half_even_def)

lemma float64_round_600: "float64_round 600 = 600"
  by (simp add: float64_round_eval [of 9] pow2_def round_half_even_def)

lemma float64_round_tie: "float64_round (9007199254740993 / 70368744177664) = 128"
  by (simp add: float64_round_eval [of 7] pow2_def round_half_even_def)

lemma float64_round_128_third:
  "float64_round (128 / 3) = 6004799503160661 / 140737488355328"
  by (simp add: float64_round_eval [of 5] pow2_def round_half_even_def)

lemma float64_round_small:
  "float64_round (3 / 140737488355328) = 3 / 140737488355328"
  by (simp add: float64_round_eval [of "-46"] pow2_def round_half_even_def)

lemma float64_round_up:
  "float64_round (18014398509481987 / 140737488355328) = 4503599627370497 / 35184372088832"
  by (simp add: float64_round_eval [of 7] pow2_def round_half_even_def)

lemma float64_round_up_third:
  "float64_round (4503599627370497 / 105553116266496) = 6004799503160663 / 140737488355328"
  by (simp add: float64_round_eval [of 5] pow2_def round_half_even_def)

lemmas float64_values = float64_round_0 float64_round_128 float64_round_200
  float64_round_400 float64_round_600 float64_round_tie float64_round_128_third
  float64_round_small float64_round_up float64_round_up_third

subsection \<open>The calibrator\<close>

text \<open>The definitions a concrete run of the analysis unfolds.\<close>

lemmas eval_defs = analyze_atlas_with_kmeans_def sorted_clusters_def Counter_def
    cluster_entry_def py_sum_def float_add_def float_mul_def float_div_def
    brightness_sorted_def py_int_def classify_cluster_color_def final_entry_def
    cinzano_categories_def category_name_def category_intensity_def category_ratio_range_def

lemma brightness_cluster_entry:
  "brightness (cluster_entry rnd n (cs ! k) cnt) = centroid_brightness rnd cs k"
  by (cases "cs ! k")
    (simp add: cluster_entry_def centroid_brightness_def py_sum_def float_add_def float_div_def)

lemma centroid_brightness_exact:
  "centroid_brightness id cs k = arithmetic_mean (cs ! k)"
  by (cases "cs ! k") (simp add: centroid_brightness_def arithmetic_mean_def)

lemma analyze_ranking:
  assumes inrange: "\<forall>l \<in> set labels. l < length centers"
  shows "\<exists>fm ranked.
           analyze_atlas_with_kmeans rnd labels centers = Inr fm
         \<and> distinct ranked \<and> set ranked = set labels
         \<and> sorted (map (centroid_brightness rnd centers) ranked)
         \<and> (\<forall>i < length ranked. i < length cinzano_categories \<longrightarrow>
               (\<exists>d. fm (ranked ! i) = Some (final_entry (cinzano_categories ! i) d)))
         \<and> (\<forall>i < length ranked. length cinzano_categories \<le> i \<longrightarrow>
               fm (ranked ! i) = None)
         \<and> (\<forall>k. k \<notin> set labels \<longrightarrow> fm k = None)"
proof -
  let ?mk = "\<lambda>x. (fst x, cluster_entry rnd (length labels) (centers ! fst x) (snd x))"
  let ?cm = "map ?mk (sorted_clusters labels)"
  let ?bs = "brightness_sorted ?cm"
  let ?fm = "final_mapping_loop 0 ?bs Map.empty"
  let ?ranked = "map fst ?bs"
  have keys_cm: "map fst ?cm = map fst (sorted_clusters labels)"
    by (simp add: comp_def)
  have loop: "color_mapping_loop rnd centers (length labels) (sorted_clusters labels) [] = Inr ?cm"
    using color_mapping_loop_ok [of "sorted_clusters labels" "[]" centers rnd "length labels"]
      inrange distinct_keys_sorted_clusters [of labels] keys_sorted_clusters [of labels]
    by auto
  then have res: "analyze_atlas_with_kmeans rnd labels centers = Inr ?fm"
    by (simp add: analyze_atlas_with_kmeans_def)
  have dist: "distinct ?ranked"
    unfolding brightness_sorted_def distinct_map_sort_key keys_cm
    by (rule distinct_keys_sorted_clusters)
  have set_ranked: "set ?ranked = set labels"
  proof -
    have "set ?ranked = set (map fst ?cm)"
      by (simp only: brightness_sorted_def set_map set_sort)
    also have "\<dots> = set labels"
      unfolding keys_cm using keys_sorted_clusters [of labels] by simp
    finally show ?thesis .
  qed
  have srt: "sorted (map (centroid_brightness rnd centers) ?ranked)"
  proof -
    have "sorted (map (\<lambda>x. brightness (snd x)) ?bs)"
      unfolding brightness_sorted_def by (rule sorted_sort_key)
    moreover have "map (\<lambda>x. brightness (snd x)) ?bs = map (centroid_brightness rnd centers) ?ranked"
    proof -
      have "\<forall>x \<in> set ?bs. brightness (snd x) = centroid_brightness rnd centers (fst x)"
        by (auto simp: brightness_sorted_def brightness_cluster_entry)
      then show ?thesis by simp
    qed
    ultimately show ?thesis by simp
  qed
  have nth: "?fm (?ranked ! i) =
            (if i < length cinzano_categories
             then Some (final_entry (cinzano_categories ! i) (snd (?bs ! i))) else None)"
    if i: "i < length ?ranked" for i
  proof -
    from i have i': "i < length ?bs" by simp
    from final_mapping_loop_nth [OF dist i', of 0 Map.empty]
    have "?fm (fst (?bs ! i)) =
            (if i < length cinzano_categories
             then Some (final_entry (cinzano_categories ! i) (snd (?bs ! i))) else None)"
      by simp
    moreover from i' have "?ranked ! i = fst (?bs ! i)" by simp
    ultimately show ?thesis by simp
  qed
  have bound: "\<forall>i < length ?ranked. i < length cinzano_categories \<longrightarrow>
               (\<exists>d. ?fm (?ranked ! i) = Some (final_entry (cinzano_categories ! i) d))"
  proof (intro allI impI)
    fix i assume a: "i < length ?ranked" "i < length cinzano_categories"
    have "?fm (?ranked ! i) = Some (final_entry (cinzano_categories ! i) (snd (?bs ! i)))"
      unfolding nth [OF a(1)] using a(2) by (simp only: if_True)
    then show "\<exists>d. ?fm (?ranked ! i) = Some (final_entry (cinzano_categories ! i) d)"
      by (rule exI)
  qed
  have unbound: "\<forall>i < length ?ranked. length cinzano_categories \<le> i \<longrightarrow>
               ?fm (?ranked ! i) = None"
  proof (intro allI impI)
    fix i assume a: "i < length ?ranked" "length cinzano_categories \<le> i"
    from a(2) have "\<not> i < length cinzano_categories" by simp
    then show "?fm (?ranked ! i) = None"
      unfolding nth [OF a(1)] by (simp only: if_False)
  qed
  have other: "\<forall>k. k \<notin> set labels \<longrightarrow> ?fm k = None"
  proof (intro allI impI)
    fix k assume "k \<notin> set labels"
    with set_ranked have "k \<notin> fst ` set ?bs" by simp
    then show "?fm k = None" by (simp add: final_mapping_loop_other)
  qed
  from res dist set_ranked srt bound unbound other show ?thesis by blast
qed

lemma upt16: "[0..<16] = [0,1,2,3,4,5,6,7,8,9,10,11,12,13,14,15]"
  by (simp add: upt_rec)

lemma border_rank:
  "i < 16 \<Longrightarrow> (category_name (cinzano_categories ! i) = ''White 2/Border'') = (i = 15)"
proof -
  assume "i < 16"
  then have "i \<in> set [0..<16]" by simp
  then show ?thesis
    unfolding upt16 by (auto simp: cinzano_categories_def category_name_def)
qed

text \<open>
  Claim C2, as stated: with a number of clusters different from the length of the table
  the calibrator rejects the configuration. It fails for two clusters: the analysis
  returns a mapping, which binds the two clusters to the first two rows of the table.
\<close>

theorem calibrator_accepts_two_clusters:
  "length [(0, 0, 0), (200, 200, 200) :: center] \<noteq> length cinzano_categories
   \<and> \<not> isl (analyze_atlas_with_kmeans float64_round [0, 0, 0, 1] [(0, 0, 0), (200, 200, 200)])
   \<and> projr (analyze_atlas_with_kmeans float64_round [0, 0, 0, 1] [(0, 0, 0), (200, 200, 200)]) 0
       = Some \<lparr>mapping_entry.rgb = (0, 0, 0), category = ''Black 1'', intensity = 0,
               ratio_range = ''<0.01''\<rparr>
   \<and> projr (analyze_atlas_with_kmeans float64_round [0, 0, 0, 1] [(0, 0, 0), (200, 200, 200)]) 1
       = Some \<lparr>mapping_entry.rgb = (200, 200, 200), category = ''Black 2'', intensity = 8,
               ratio_range = ''0.01-0.06''\<rparr>"
  by (simp add: eval_defs float64_values)

text \<open>
  Claim C2, amended: for any number of clusters the calibrator returns a mapping and
  never rejects the configuration. It ranks the clusters ascending by the brightness it
  computes (the mean of the centroid in float64 arithmetic, whatever the rounding), binds
  those whose rank is below the length of the table to the table row of the same rank,
  and leaves every further cluster without a binding.
\<close>

theorem calibrator_truncates_to_table:
  assumes "\<forall>l \<in> set labels. l < length centers"
  shows "\<exists>fm ranked.
           analyze_atlas_with_kmeans rnd labels centers = Inr fm
         \<and> distinct ranked \<and> set ranked = set labels
         \<and> sorted (map (centroid_brightness rnd centers) ranked)
         \<and> dom fm = set (take (length cinzano_categories) ranked)
         \<and> (\<forall>i < length ranked. i < length cinzano_categories \<longrightarrow>
               (\<exists>e. fm (ranked ! i) = Some e
                  \<and> category e = category_name (cinzano_categories ! i)
                  \<and> intensity e = category_intensity (cinzano_categories ! i)))"
proof -
  from analyze_ranking [OF assms] obtain fm ranked where
    res: "analyze_atlas_with_kmeans rnd labels centers = Inr fm"
    and dist: "distinct ranked" and set_ranked: "set ranked = set labels"
    and srt: "sorted (map (centroid_brightness rnd centers) ranked)"
    and bound: "\<forall>i < length ranked. i < length cinzano_categories \<longrightarrow>
               (\<exists>d. fm (ranked ! i) = Some (final_entry (cinzano_categories ! i) d))"
    and unbound: "\<forall>i < length ranked. length cinzano_categories \<le> i \<longrightarrow>
               fm (ranked ! i) = None"
    and other: "\<forall>k. k \<notin> set labels \<longrightarrow> fm k = None"
    by blast
  let ?n = "length cinzano_categories"
  have "dom fm = set (take ?n ranked)"
  proof (intro set_eqI iffI)
    fix k assume "k \<in> dom fm"
    then have some: "fm k \<noteq> None" by auto
    with other set_ranked have "k \<in> set ranked" by auto
    then obtain i where i: "i < length ranked" "ranked ! i = k"
      by (auto simp: in_set_conv_nth)
    with unbound some have "i < ?n" by (metis not_le)
    with i show "k \<in> set (take ?n ranked)"
      by (auto simp: in_set_conv_nth intro!: exI [of _ i])
  next
    fix k assume "k \<in> set (take ?n ranked)"
    then obtain i where i: "i < length ranked" "i < ?n" "ranked ! i = k"
      by (auto simp: in_set_conv_nth)
    with bound show "k \<in> dom fm" by force
  qed
  moreover have "\<forall>i < length ranked. i < ?n \<longrightarrow>
               (\<exists>e. fm (ranked ! i) = Some e
                  \<and> category e = category_name (cinzano_categories ! i)
                  \<and> intensity e = category_intensity (cinzano_categories ! i))"
  proof (intro allI impI)
    fix i assume "i < length ranked" "i < ?n"
    with bound obtain d where
      "fm (ranked ! i) = Some (final_entry (cinzano_categories ! i) d)" by blast
    then show "\<exists>e. fm (ranked ! i) = Some e
                  \<and> category e = category_name (cinzano_categories ! i)
                  \<and> intensity e = category_intensity (cinzano_categories ! i)"
      by (simp add: final_entry_def)
  qed
  ultimately show ?thesis
    using res dist set_ranked srt by blast
qed

theorem calibrator_truncates_to_table_witness:
  "\<exists>fm ranked.
      analyze_atlas_with_kmeans float64_round [0..<17] (map (\<lambda>i. (real i, real i, real i)) [0..<17]) = Inr fm
    \<and> distinct ranked \<and> length ranked = 17
    \<and> dom fm = set (take 16 ranked) \<and> card (dom fm) = 16"
proof -
  let ?cs = "map (\<lambda>i. (real i, real i, real i)) [0..<17]"
  have h: "\<forall>l \<in> set [0..<17]. l < length ?cs" by simp
  from calibrator_truncates_to_table [OF h] obtain fm ranked where
    res: "analyze_atlas_with_kmeans float64_round [0..<17] ?cs = Inr fm"
    and dist: "distinct ranked" and set_ranked: "set ranked = set [0..<17]"
    and dom: "dom fm = set (take (length cinzano_categories) ranked)"
    by blast
  from dist have "length ranked = card (set ranked)"
    by (simp add: distinct_card)
  with set_ranked have len: "length ranked = 17" by simp
  from dom have dom16: "dom fm = set (take 16 ranked)"
    by (simp add: length_cinzano_categories)
  from dist have "distinct (take 16 ranked)" by (rule distinct_take)
  then have "card (set (take 16 ranked)) = length (take 16 ranked)"
    by (rule distinct_card)
  with len dom16 have "card (dom fm) = 16" by simp
  with res dist len dom16 show ?thesis by blast
qed

text \<open>
  Claim C3, as stated: the clusters are sorted ascending by the arithmetic mean of the
  three channels of their centroids, and the cluster of rank \<open>i\<close> is bound to the table row
  of rank \<open>i\<close>. It fails where two means are closer than the rounding of the sums. Below,
  cluster 1 has the strictly smaller arithmetic mean; but adding \<open>2 ^ - 46\<close> to 128 leaves
  128, twice, while adding 128 to \<open>3 * 2 ^ - 47\<close> rounds up to \<open>128 + 2 ^ - 45\<close>, so the code
  computes the smaller brightness for cluster 0, ranks it first and binds it to the
  darkest category.
\<close>

theorem calibrator_rank_differs_from_mean_order:
  "arithmetic_mean (3 / 2 ^ 47, 0, 128) < arithmetic_mean (128, 1 / 2 ^ 46, 1 / 2 ^ 46)
   \<and> projr (analyze_atlas_with_kmeans float64_round [0, 1]
              [(128, 1 / 2 ^ 46, 1 / 2 ^ 46), (3 / 2 ^ 47, 0, 128)]) 0
       = Some \<lparr>mapping_entry.rgb = (128, 0, 0), category = ''Black 1'', intensity = 0,
               ratio_range = ''<0.01''\<rparr>
   \<and> projr (analyze_atlas_with_kmeans float64_round [0, 1]
              [(128, 1 / 2 ^ 46, 1 / 2 ^ 46), (3 / 2 ^ 47, 0, 128)]) 1
       = Some \<lparr>mapping_entry.rgb = (0, 0, 128), category = ''Black 2'', intensity = 8,
               ratio_range = ''0.01-0.06''\<rparr>"
  by (simp add: arithmetic_mean_def eval_defs float64_values)

text \<open>
  Claim C3, amended: the brightness of a cluster is the mean of the three channels of its
  centroid as the code computes it in float64 arithmetic: the channels added one after
  the other from 0 and the sum divided by 3, each operation rounded (for any rounding;
  it is the arithmetic mean where nothing is rounded). The calibrator sorts the clusters
  ascending by this computed brightness and binds the cluster of rank \<open>i\<close> to the table
  row of rank \<open>i\<close>; every cluster id (every id that labels a sampled pixel) receives a
  category name, an intensity and a border flag. The number of clusters is at most the
  length of the table, as the 16 clusters of the source are.
\<close>

theorem calibrator_binds_by_brightness_rank:
  assumes "\<forall>l \<in> set labels. l < length centers"
    and "length centers \<le> length cinzano_categories"
  shows "(\<forall>k n cnt. brightness (cluster_entry rnd n (centers ! k) cnt)
                        = centroid_brightness rnd centers k)
         \<and> (\<forall>k. centroid_brightness id centers k = arithmetic_mean (centers ! k))
         \<and> (\<exists>fm ranked.
           analyze_atlas_with_kmeans rnd labels centers = Inr fm
         \<and> distinct ranked \<and> set ranked = set labels \<and> dom fm = set labels
         \<and> sorted (map (centroid_brightness rnd centers) ranked)
         \<and> (\<forall>i < length ranked.
               \<exists>e. fm (ranked ! i) = Some e
                  \<and> category e = category_name (cinzano_categories ! i)
                  \<and> intensity e = category_intensity (cinzano_categories ! i)
                  \<and> is_border e = (i = 15)))"
proof -
  from analyze_ranking [OF assms(1)] obtain fm ranked where
    res: "analyze_atlas_with_kmeans rnd labels centers = Inr fm"
    and dist: "distinct ranked" and set_ranked: "set ranked = set labels"
    and srt: "sorted (map (centroid_brightness rnd centers) ranked)"
    and bound: "\<forall>i < length ranked. i < length cinzano_categories \<longrightarrow>
               (\<exists>d. fm (ranked ! i) = Some (final_entry (cinzano_categories ! i) d))"
    and unbound: "\<forall>i < length ranked. length cinzano_categories \<le> i \<longrightarrow>
               fm (ranked ! i) = None"
    and other: "\<forall>k. k \<notin> set labels \<longrightarrow> fm k = None"
    by blast
  have "length ranked = card (set ranked)"
    using dist by (simp add: distinct_card)
  also have "\<dots> \<le> card {..<length centers}"
    using assms(1) set_ranked by (intro card_mono) auto
  finally have short: "length ranked \<le> length cinzano_categories"
    using assms(2) by simp
  have each: "\<forall>i < length ranked.
               \<exists>e. fm (ranked ! i) = Some e
                  \<and> category e = category_name (cinzano_categories ! i)
                  \<and> intensity e = category_intensity (cinzano_categories ! i)
                  \<and> is_border e = (i = 15)"
  proof (intro allI impI)
    fix i assume i: "i < length ranked"
    with short have i16: "i < length cinzano_categories" by simp
    with bound i obtain d where
      "fm (ranked ! i) = Some (final_entry (cinzano_categories ! i) d)" by blast
    moreover from i16 have
      "(category_name (cinzano_categories ! i) = ''White 2/Border'') = (i = 15)"
      by (intro border_rank) (simp add: length_cinzano_categories)
    ultimately show "\<exists>e. fm (ranked ! i) = Some e
                  \<and> category e = category_name (cinzano_categories ! i)
                  \<and> intensity e = category_intensity (cinzano_categories ! i)
                  \<and> is_border e = (i = 15)"
      by (simp add: final_entry_def is_border_def)
  qed
  have "dom fm = set labels"
  proof (intro set_eqI iffI)
    fix k assume "k \<in> dom fm"
    with other show "k \<in> set labels" by auto
  next
    fix k assume "k \<in> set labels"
    with set_ranked have "k \<in> set ranked" by simp
    then obtain i where "i < length ranked" "ranked ! i = k"
      by (auto simp: in_set_conv_nth)
    with each show "k \<in> dom fm" by force
  qed
  with res dist set_ranked srt each have "\<exists>fm ranked.
           analyze_atlas_with_kmeans rnd labels centers = Inr fm
         \<and> distinct ranked \<and> set ranked = set labels \<and> dom fm = set labels
         \<and> sorted (map (centroid_brightness rnd centers) ranked)
         \<and> (\<forall>i < length ranked.
               \<exists>e. fm (ranked ! i) = Some e
                  \<and> category e = category_name (cinzano_categories ! i)
                  \<and> intensity e = category_intensity (cinzano_categories ! i)
                  \<and> is_border e = (i = 15))"
    by blast
  then show ?thesis
    by (simp add: brightness_cluster_entry centroid_brightness_exact)
qed

theorem calibrator_binds_by_brightness_rank_witness:
  "length [(200, 200, 200), (0, 0, 0) :: center] \<le> length cinzano_categories
   \<and> centroid_brightness float64_round [(200, 200, 200), (0, 0, 0)] 0 = 200
   \<and> centroid_brightness float64_round [(200, 200, 200), (0, 0, 0)] 1 = 0
   \<and> projr (analyze_atlas_with_kmeans float64_round [1, 1, 1, 0] [(200, 200, 200), (0, 0, 0)]) 1
       = Some \<lparr>mapping_entry.rgb = (0, 0, 0), category = ''Black 1'', intensity = 0,
               ratio_range = ''<0.01''\<rparr>
   \<and> projr (analyze_atlas_with_kmeans float64_round [1, 1, 1, 0] [(200, 200, 200), (0, 0, 0)]) 0
       = Some \<lparr>mapping_entry.rgb = (200, 200, 200), category = ''Black 2'', intensity = 8,
               ratio_range = ''0.01-0.06''\<rparr>
   \<and> (\<exists>fm ranked.
           analyze_atlas_with_kmeans float64_round [1, 1, 1, 0] [(200, 200, 200), (0, 0, 0)] = Inr fm
         \<and> distinct ranked \<and> set ranked = set [1, 1, 1, 0] \<and> dom fm = set [1, 1, 1, 0]
         \<and> sorted (map (centroid_brightness float64_round [(200, 200, 200), (0, 0, 0)]) ranked)
         \<and> (\<forall>i < length ranked.
               \<exists>e. fm (ranked ! i) = Some e
                  \<and> category e = category_name (cinzano_categories ! i)
                  \<and> intensity e = category_intensity (cinzano_categories ! i)
                  \<and> is_border e = (i = 15)))"
proof -
  have h1: "\<forall>l \<in> set [1, 1, 1, 0 :: nat]. l < length [(200, 200, 200), (0, 0, 0) :: center]"
    by simp
  have h2: "length [(200, 200, 200), (0, 0, 0) :: center] \<le> length cinzano_categories"
    by (simp add: length_cinzano_categories)
  have run: "projr (analyze_atlas_with_kmeans float64_round [1, 1, 1, 0] [(200, 200, 200), (0, 0, 0)]) 1
       = Some \<lparr>mapping_entry.rgb = (0, 0, 0), category = ''Black 1'', intensity = 0,
               ratio_range = ''<0.01''\<rparr>
   \<and> projr (analyze_atlas_with_kmeans float64_round [1, 1, 1, 0] [(200, 200, 200), (0, 0, 0)]) 0
       = Some \<lparr>mapping_entry.rgb = (200, 200, 200), category = ''Black 2'', intensity = 8,
               ratio_range = ''0.01-0.06''\<rparr>"
    by (simp add: eval_defs float64_values)
  have br: "centroid_brightness float64_round [(200, 200, 200), (0, 0, 0)] 0 = 200
   \<and> centroid_brightness float64_round [(200, 200, 200), (0, 0, 0)] 1 = 0"
    by (simp add: centroid_brightness_def float64_values)
  from calibrator_binds_by_brightness_rank [OF h1 h2] h2 run br show ?thesis by blast
qed

subsection \<open>Arrays, the lightmap and the contrast enhancement\<close>

text \<open>The definitions a concrete run of the decoder unfolds.\<close>

lemmas decode_defs = find_closest_cluster_def lightmap_array_def collect_grid_def
  lightmap_cell_def pixel_intensity_def store_uint8_def decode_atlas_to_lightmap_kmeans_def
  Contrast_enhance_def stat_mean_def blend_pixel_def convert_RGB_def

lemma collect_all_Inr:
  "(\<And>x. x \<in> set xs \<Longrightarrow> f x = Inr (h x)) \<Longrightarrow> collect (map f xs) = Inr (map h xs)"
  by (induction xs) auto

lemma collect_grid_all_Inr:
  assumes "\<And>row p. row \<in> set grid \<Longrightarrow> p \<in> set row \<Longrightarrow> f p = Inr (h p)"
  shows "collect_grid f grid = Inr (map (map h) grid)"
proof -
  have "collect (map (\<lambda>row. collect (map f row)) grid) = Inr (map (map h) grid)"
    using assms by (intro collect_all_Inr) (auto intro: collect_all_Inr)
  then show ?thesis by (simp add: collect_grid_def)
qed

lemma collect_Inr_all:
  assumes "collect (map f xs) = Inr vs" and "\<And>x v. f x = Inr v \<Longrightarrow> P v"
  shows "list_all P vs"
  using assms
proof (induction xs arbitrary: vs)
  case Nil
  then show ?case by simp
next
  case (Cons x xs)
  from Cons.prems(1) obtain v vs' where
    "f x = Inr v" "collect (map f xs) = Inr vs'" "vs = v # vs'"
    by (auto split: sum.splits)
  with Cons.IH [of vs'] Cons.prems(2) show ?case by simp
qed

lemma collect_grid_Inr_all:
  assumes "collect_grid f grid = Inr out" and "\<And>x v. f x = Inr v \<Longrightarrow> P v"
  shows "list_all (list_all P) out"
proof -
  from assms(1) have "collect (map (\<lambda>row. collect (map f row)) grid) = Inr out"
    by (simp add: collect_grid_def)
  then show ?thesis
  proof (rule collect_Inr_all)
    fix row vs assume "collect (map f row) = Inr vs"
    then show "list_all P vs" using assms(2) by (rule collect_Inr_all)
  qed
qed

lemma pixel_intensity_in_range:
  assumes "\<forall>cid e. color_mapping cid = Some e \<longrightarrow> 0 \<le> intensity e \<and> intensity e \<le> 255"
  shows "0 \<le> pixel_intensity color_mapping c \<and> pixel_intensity color_mapping c \<le> 255"
  using assms by (auto simp: pixel_intensity_def split: option.splits)

lemma lightmap_array_total:
  assumes "\<forall>cid e. color_mapping cid = Some e \<longrightarrow> 0 \<le> intensity e \<and> intensity e \<le> 255"
  shows "lightmap_array color_mapping kmeans img =
           Inr (map (map (\<lambda>p. nat (pixel_intensity color_mapping (find_closest_cluster p kmeans)))) img)"
  unfolding lightmap_array_def
  using pixel_intensity_in_range [OF assms]
  by (intro collect_grid_all_Inr) (simp add: lightmap_cell_def store_uint8_def)

lemma py_int_mono: "x \<le> y \<Longrightarrow> py_int x \<le> py_int y"
proof -
  assume xy: "x \<le> y"
  consider "0 \<le> x" | "x < 0" "0 \<le> y" | "y < 0" by linarith
  then show ?thesis
  proof cases
    case 1
    with xy show ?thesis by (simp add: py_int_def floor_mono)
  next
    case 2
    then have "\<lceil>x\<rceil> \<le> 0" and "0 \<le> \<lfloor>y\<rfloor>" by simp_all
    then have "\<lceil>x\<rceil> \<le> \<lfloor>y\<rfloor>" by (rule order_trans)
    with 2 show ?thesis by (simp add: py_int_def)
  next
    case 3
    with xy show ?thesis by (simp add: py_int_def ceiling_mono)
  qed
qed

lemma blend_pixel_mono:
  assumes "0 \<le> alpha" and "a \<le> b"
  shows "blend_pixel alpha g a \<le> blend_pixel alpha g b"
proof -
  let ?t = "\<lambda>v. real_of_int g + alpha * (real v - real_of_int g)"
  from assms have t: "?t a \<le> ?t b"
    by (simp add: mult_left_mono)
  then have p: "nat (py_int (?t a)) \<le> nat (py_int (?t b))"
    by (intro nat_mono py_int_mono)
  have le255: "nat (py_int (?t a)) \<le> 255" if "?t a < 255"
  proof -
    from that have "py_int (?t a) \<le> py_int 255" by (intro py_int_mono) simp
    then show ?thesis by (simp add: py_int_def)
  qed
  have pos: "0 \<le> nat (py_int (?t b))" by simp
  from t p le255 show ?thesis
    unfolding blend_pixel_def Let_def by auto
qed

lemma blend_pixel_clipped: "\<not> (0 \<le> alpha \<and> alpha \<le> 1) \<Longrightarrow> blend_pixel alpha g v \<le> 255"
proof -
  assume ex: "\<not> (0 \<le> alpha \<and> alpha \<le> 1)"
  let ?t = "real_of_int g + alpha * (real v - real_of_int g)"
  have "nat (py_int ?t) \<le> 255" if "?t < 255"
  proof -
    from that have "py_int ?t \<le> py_int 255" by (intro py_int_mono) simp
    then show ?thesis by (simp add: py_int_def)
  qed
  with ex show ?thesis
    unfolding blend_pixel_def Let_def by auto
qed

lemma blend_pixel_zero: "1 < alpha \<Longrightarrow> 0 \<le> g \<Longrightarrow> blend_pixel alpha g 0 = 0"
proof -
  assume a: "1 < alpha" and g: "0 \<le> g"
  have "real_of_int g + alpha * (real 0 - real_of_int g) = (1 - alpha) * real_of_int g"
    by (simp add: algebra_simps)
  also from a g have "\<dots> \<le> 0"
    by (simp add: mult_nonpos_nonneg)
  finally show ?thesis using a
    unfolding blend_pixel_def Let_def by auto
qed

lemma pixel_in_concat: "y < length img \<Longrightarrow> x < length (img ! y) \<Longrightarrow> concat img \<noteq> []"
proof -
  assume "y < length img" and "x < length (img ! y)"
  then have "img ! y \<in> set img" and "img ! y \<noteq> []" by auto
  then show ?thesis by auto
qed

lemma stat_mean_nonempty:
  "concat img \<noteq> [] \<Longrightarrow> \<exists>mean. 0 \<le> mean \<and> stat_mean img = Inr mean"
  by (simp add: stat_mean_def)

lemma Contrast_enhance_nonempty:
  assumes "concat img \<noteq> []"
  shows "\<exists>g. 0 \<le> g \<and> Contrast_enhance factor img = Inr (map (map (blend_pixel factor g)) img)"
proof -
  from stat_mean_nonempty [OF assms] obtain mean where
    m: "0 \<le> mean" "stat_mean img = Inr mean" by blast
  then have "0 \<le> py_int (mean + 0.5)" by (simp add: py_int_def)
  moreover from m have "Contrast_enhance factor img =
      Inr (map (map (blend_pixel factor (py_int (mean + 0.5)))) img)"
    by (simp add: Contrast_enhance_def)
  ultimately show ?thesis by blast
qed

lemma Contrast_enhance_Inr:
  assumes "Contrast_enhance factor img = Inr out"
  shows "\<exists>g. 0 \<le> g \<and> out = map (map (blend_pixel factor g)) img"
proof -
  from assms have "concat img \<noteq> []"
    by (auto simp: Contrast_enhance_def stat_mean_def split: if_splits)
  from Contrast_enhance_nonempty [OF this, of factor] assms show ?thesis by auto
qed

lemma concat_map_map_Nil: "concat (map (map f) img) = [] \<longleftrightarrow> concat img = []"
  by (induction img) auto

lemma decode_total:
  assumes rng: "\<forall>cid e. color_mapping cid = Some e \<longrightarrow> 0 \<le> intensity e \<and> intensity e \<le> 255"
    and ne: "concat img \<noteq> []"
  shows "\<exists>g. 0 \<le> g \<and> decode_atlas_to_lightmap_kmeans color_mapping kmeans img =
           Inr (convert_RGB (map (map (blend_pixel 1.3 g))
             (map (map (\<lambda>p. nat (pixel_intensity color_mapping (find_closest_cluster p kmeans)))) img)))"
proof -
  let ?lm = "map (map (\<lambda>p. nat (pixel_intensity color_mapping (find_closest_cluster p kmeans)))) img"
  have lm: "lightmap_array color_mapping kmeans img = Inr ?lm"
    using rng by (rule lightmap_array_total)
  from ne have "concat ?lm \<noteq> []" by (simp only: concat_map_map_Nil not_False_eq_True)
  from Contrast_enhance_nonempty [OF this, of "1.3"] obtain g where
    "0 \<le> g" "Contrast_enhance 1.3 ?lm = Inr (map (map (blend_pixel 1.3 g)) ?lm)" by blast
  with lm show ?thesis
    by (auto simp: decode_atlas_to_lightmap_kmeans_def)
qed


subsection \<open>The classified strategy\<close>

text \<open>
  Claim C4: a pixel whose nearest cluster is bound to the border category is written as
  0 into the lightmap, whatever its colour, and it is still 0 in the image that is saved.
  The intensities of the mapping lie in \<open>[0, 255]\<close>, as those of the table do.
\<close>

theorem border_pixels_are_black:
  assumes yx: "y < length img" "x < length (img ! y)"
    and bound: "color_mapping (find_closest_cluster (img ! y ! x) kmeans) = Some entry"
    and border: "is_border entry"
    and rng: "\<forall>cid e. color_mapping cid = Some e \<longrightarrow> 0 \<le> intensity e \<and> intensity e \<le> 255"
  shows "\<exists>lightmap out.
           lightmap_array color_mapping kmeans img = Inr lightmap
         \<and> lightmap ! y ! x = 0
         \<and> decode_atlas_to_lightmap_kmeans color_mapping kmeans img = Inr out
         \<and> out ! y ! x = (0, 0, 0)"
proof -
  let ?lm = "map (map (\<lambda>p. nat (pixel_intensity color_mapping (find_closest_cluster p kmeans)))) img"
  have lm: "lightmap_array color_mapping kmeans img = Inr ?lm"
    using rng by (rule lightmap_array_total)
  from bound border have zero: "pixel_intensity color_mapping (find_closest_cluster (img ! y ! x) kmeans) = 0"
    by (simp add: pixel_intensity_def is_border_def)
  with yx have cell: "?lm ! y ! x = 0" by simp
  from yx have "concat img \<noteq> []" by (rule pixel_in_concat)
  from decode_total [OF rng this, of kmeans] obtain g where
    g: "0 \<le> g" and out: "decode_atlas_to_lightmap_kmeans color_mapping kmeans img =
           Inr (convert_RGB (map (map (blend_pixel 1.3 g)) ?lm))" by blast
  from g have "blend_pixel 1.3 g 0 = 0" by (intro blend_pixel_zero) simp_all
  with yx zero have "convert_RGB (map (map (blend_pixel 1.3 g)) ?lm) ! y ! x = (0, 0, 0)"
    by (simp add: convert_RGB_def)
  with lm cell out show ?thesis by blast
qed

theorem border_pixels_are_black_witness:
  "lightmap_array
      [15 \<mapsto> \<lparr>mapping_entry.rgb = (250, 250, 250), category = ''White 2/Border'',
                intensity = 0, ratio_range = ''Border''\<rparr>,
       14 \<mapsto> \<lparr>mapping_entry.rgb = (240, 240, 240), category = ''White 1'',
                intensity = 255, ratio_range = ''>46.77''\<rparr>]
      (\<lambda>p. if fst p = 255 then 15 else 14)
      [[(255, 255, 255), (240, 240, 240)]] = Inr [[0, 255]]
   \<and> decode_atlas_to_lightmap_kmeans
      [15 \<mapsto> \<lparr>mapping_entry.rgb = (250, 250, 250), category = ''White 2/Border'',
                intensity = 0, ratio_range = ''Border''\<rparr>,
       14 \<mapsto> \<lparr>mapping_entry.rgb = (240, 240, 240), category = ''White 1'',
                intensity = 255, ratio_range = ''>46.77''\<rparr>]
      (\<lambda>p. if fst p = 255 then 15 else 14)
      [[(255, 255, 255), (240, 240, 240)]] = Inr [[(0, 0, 0), (255, 255, 255)]]"
  using border_pixels_are_black [of 0 "[[(255, 255, 255), (240, 240, 240)]]" 0
      "[15 \<mapsto> \<lparr>mapping_entry.rgb = (250, 250, 250), category = ''White 2/Border'',
                intensity = 0, ratio_range = ''Border''\<rparr>,
        14 \<mapsto> \<lparr>mapping_entry.rgb = (240, 240, 240), category = ''White 1'',
                intensity = 255, ratio_range = ''>46.77''\<rparr>]"
      "\<lambda>p. if fst p = 255 then 15 else 14"
      "\<lparr>mapping_entry.rgb = (250, 250, 250), category = ''White 2/Border'',
                intensity = 0, ratio_range = ''Border''\<rparr>"]
  by (simp add: is_border_def decode_defs py_int_def split: if_splits)

text \<open>
  Claim C5: a pixel whose nearest cluster has no entry in the mapping is written as 0; no
  error is raised for it, and the remapping returns a lightmap with one cell for every
  pixel of the grid. The intensities of the mapping lie in \<open>[0, 255]\<close>.
\<close>

theorem unmapped_clusters_are_black:
  assumes yx: "y < length img" "x < length (img ! y)"
    and unmapped: "color_mapping (find_closest_cluster (img ! y ! x) kmeans) = None"
    and rng: "\<forall>cid e. color_mapping cid = Some e \<longrightarrow> 0 \<le> intensity e \<and> intensity e \<le> 255"
  shows "lightmap_cell color_mapping kmeans (img ! y ! x) = Inr 0
         \<and> (\<exists>lightmap.
               lightmap_array color_mapping kmeans img = Inr lightmap
             \<and> map length lightmap = map length img
             \<and> lightmap ! y ! x = 0)"
proof -
  let ?lm = "map (map (\<lambda>p. nat (pixel_intensity color_mapping (find_closest_cluster p kmeans)))) img"
  from unmapped have zero:
    "pixel_intensity color_mapping (find_closest_cluster (img ! y ! x) kmeans) = 0"
    by (simp add: pixel_intensity_def)
  then have "lightmap_cell color_mapping kmeans (img ! y ! x) = Inr 0"
    by (simp add: lightmap_cell_def store_uint8_def)
  moreover have "lightmap_array color_mapping kmeans img = Inr ?lm"
    using rng by (rule lightmap_array_total)
  moreover have "map length ?lm = map length img" by simp
  moreover from yx zero have "?lm ! y ! x = 0" by simp
  ultimately show ?thesis by blast
qed

theorem unmapped_clusters_are_black_witness:
  "lightmap_cell [0 \<mapsto> \<lparr>mapping_entry.rgb = (9, 9, 9), category = ''Black 2'',
                          intensity = 8, ratio_range = ''0.01-0.06''\<rparr>]
      (\<lambda>p. if fst p < 100 then 0 else 7) (200, 200, 200) = Inr 0
   \<and> lightmap_array [0 \<mapsto> \<lparr>mapping_entry.rgb = (9, 9, 9), category = ''Black 2'',
                          intensity = 8, ratio_range = ''0.01-0.06''\<rparr>]
      (\<lambda>p. if fst p < 100 then 0 else 7) [[(10, 10, 10), (200, 200, 200)]] = Inr [[8, 0]]"
  using unmapped_clusters_are_black [of 0 "[[(10, 10, 10), (200, 200, 200)]]" 1
      "[0 \<mapsto> \<lparr>mapping_entry.rgb = (9, 9, 9), category = ''Black 2'',
                          intensity = 8, ratio_range = ''0.01-0.06''\<rparr>]"
      "\<lambda>p. if fst p < 100 then 0 else 7"]
  by (simp add: decode_defs split: if_splits)



lemma final_mapping_loop_entries:
  assumes "\<And>k e. fm k = Some e \<Longrightarrow> P e"
    and "\<And>i d. i < length cinzano_categories \<Longrightarrow> P (final_entry (cinzano_categories ! i) d)"
    and "final_mapping_loop i bs fm k = Some e"
  shows "P e"
  using assms
proof (induction bs arbitrary: i fm)
  case Nil
  then show ?case by simp
next
  case (Cons b bs)
  obtain cid d where b: "b = (cid, d)" by (cases b)
  let ?fm = "if i < length cinzano_categories
        then fm(cid \<mapsto> final_entry (cinzano_categories ! i) d) else fm"
  have "P e'" if "?fm k' = Some e'" for k' e'
    using that Cons.prems(1,2) by (auto split: if_splits)
  moreover from Cons.prems(3) b have "final_mapping_loop (i + 1) bs ?fm k = Some e" by simp
  ultimately show ?case
    using Cons.prems(2) by (intro Cons.IH [of ?fm "i + 1"])
qed

lemma table_intensity_set:
  "set (map category_intensity cinzano_categories) =
     {0, 8, 16, 24, 32, 48, 64, 80, 96, 128, 160, 192, 224, 240, 255}"
  unfolding cinzano_intensity_column by auto

lemma table_intensities:
  assumes "i < length cinzano_categories"
  shows "category_intensity (cinzano_categories ! i)
       \<in> {0, 8, 16, 24, 32, 48, 64, 80, 96, 128, 160, 192, 224, 240, 255}"
proof -
  from assms have "cinzano_categories ! i \<in> set cinzano_categories"
    by (rule nth_mem)
  then have "category_intensity (cinzano_categories ! i)
               \<in> category_intensity ` set cinzano_categories"
    by (rule imageI)
  then have "category_intensity (cinzano_categories ! i)
               \<in> set (map category_intensity cinzano_categories)"
    by (simp only: set_map)
  then show ?thesis
    by (simp only: table_intensity_set)
qed

lemma analyze_entries:
  assumes "analyze_atlas_with_kmeans rnd labels centers = Inr fm" and "fm k = Some e"
  shows "intensity e \<in> {0, 8, 16, 24, 32, 48, 64, 80, 96, 128, 160, 192, 224, 240, 255}"
proof -
  from assms(1) obtain bs where "fm = final_mapping_loop 0 bs Map.empty"
    by (auto simp: analyze_atlas_with_kmeans_def split: sum.splits)
  with assms(2) have "final_mapping_loop 0 bs Map.empty k = Some e" by simp
  then show ?thesis
  proof (rule final_mapping_loop_entries [rotated 2])
    show "\<And>k e. Map.empty k = Some e \<Longrightarrow>
      intensity e \<in> {0, 8, 16, 24, 32, 48, 64, 80, 96, 128, 160, 192, 224, 240, 255}"
      by simp
    show "\<And>i d. i < length cinzano_categories \<Longrightarrow>
      intensity (final_entry (cinzano_categories ! i) d)
        \<in> {0, 8, 16, 24, 32, 48, 64, 80, 96, 128, 160, 192, 224, 240, 255}"
      using table_intensities by (simp add: final_entry_def)
  qed
qed

text \<open>
  Claim C9: with the mapping that the calibrator returns, the remapping succeeds and every
  cell of the lightmap, before post-processing, is one of the fifteen intensities of the
  table (the border row counting as 0).
\<close>

theorem lightmap_values_from_table:
  assumes "analyze_atlas_with_kmeans rnd labels centers = Inr color_mapping"
  shows "\<exists>lightmap.
           lightmap_array color_mapping kmeans img = Inr lightmap
         \<and> (\<forall>row \<in> set lightmap. \<forall>v \<in> set row.
               v \<in> {0, 8, 16, 24, 32, 48, 64, 80, 96, 128, 160, 192, 224, 240, 255})"
proof -
  let ?S = "{0, 8, 16, 24, 32, 48, 64, 80, 96, 128, 160, 192, 224, 240, 255} :: int set"
  let ?lm = "map (map (\<lambda>p. nat (pixel_intensity color_mapping (find_closest_cluster p kmeans)))) img"
  have ent: "intensity e \<in> ?S" if "color_mapping k = Some e" for k e
    using assms that by (rule analyze_entries)
  then have rng: "\<forall>cid e. color_mapping cid = Some e \<longrightarrow> 0 \<le> intensity e \<and> intensity e \<le> 255"
    by fastforce
  have px: "pixel_intensity color_mapping c \<in> ?S" for c
  proof (cases "color_mapping c")
    case None
    then show ?thesis by (simp add: pixel_intensity_def)
  next
    case (Some e)
    with ent [OF Some] show ?thesis by (simp add: pixel_intensity_def)
  qed
  have "nat (pixel_intensity color_mapping c)
          \<in> {0, 8, 16, 24, 32, 48, 64, 80, 96, 128, 160, 192, 224, 240, 255}" for c
    using px [of c] by auto
  then have "\<forall>row \<in> set ?lm. \<forall>v \<in> set row.
               v \<in> {0, 8, 16, 24, 32, 48, 64, 80, 96, 128, 160, 192, 224, 240, 255}"
    by auto
  moreover have "lightmap_array color_mapping kmeans img = Inr ?lm"
    using rng by (rule lightmap_array_total)
  ultimately show ?thesis by blast
qed

theorem lightmap_values_from_table_witness:
  "lightmap_array (projr (analyze_atlas_with_kmeans float64_round [0, 0, 0, 1] [(0, 0, 0), (200, 200, 200)]))
      (\<lambda>p. if fst p < 100 then 0 else 1) [[(3, 3, 3), (198, 199, 200)]] = Inr [[0, 8]]"
proof -
  have a: "analyze_atlas_with_kmeans float64_round [0, 0, 0, 1] [(0, 0, 0), (200, 200, 200)] =
      Inr (projr (analyze_atlas_with_kmeans float64_round [0, 0, 0, 1] [(0, 0, 0), (200, 200, 200)]))"
    by (simp add: eval_defs float64_values)
  from lightmap_values_from_table [OF a, of "\<lambda>p. if fst p < 100 then 0 else 1"
      "[[(3, 3, 3), (198, 199, 200)]]"]
  show ?thesis
    by (simp add: eval_defs decode_defs float64_values)
qed


subsection \<open>The tone post-processor\<close>

text \<open>
  Claim C7: the contrast enhancement keeps the order of the pixels. For any factor that
  is not negative (the decoders use 1.3 and 1.2) and any two cells of the image with
  \<open>a < b\<close>, the enhanced image exists and its two cells satisfy \<open>a' \<le> b'\<close>.
\<close>

theorem contrast_preserves_order:
  assumes "0 \<le> factor"
    and "y1 < length img" "x1 < length (img ! y1)"
    and "y2 < length img" "x2 < length (img ! y2)"
    and "img ! y1 ! x1 < img ! y2 ! x2"
  shows "\<exists>out. Contrast_enhance factor img = Inr out \<and> out ! y1 ! x1 \<le> out ! y2 ! x2"
proof -
  from assms(2,3) have "concat img \<noteq> []" by (rule pixel_in_concat)
  from Contrast_enhance_nonempty [OF this, of factor] obtain g where
    out: "Contrast_enhance factor img = Inr (map (map (blend_pixel factor g)) img)" by blast
  from assms have "blend_pixel factor g (img ! y1 ! x1) \<le> blend_pixel factor g (img ! y2 ! x2)"
    by (intro blend_pixel_mono) simp_all
  with assms(2-5) have "map (map (blend_pixel factor g)) img ! y1 ! x1
                     \<le> map (map (blend_pixel factor g)) img ! y2 ! x2"
    by simp
  with out show ?thesis by blast
qed

theorem contrast_preserves_order_witness:
  "Contrast_enhance 1.3 [[0, 100], [255, 101]] = Inr [[0, 95], [255, 97]]"
  using contrast_preserves_order [of "1.3" 0 "[[0, 100], [255, 101]]" 1 1 1]
  by (simp add: decode_defs py_int_def)

subsection \<open>The direct-channel strategy\<close>

lemma normalized_clamp01: "normalized g = clamp01 (g / 37)"
  by (simp add: normalized_def np_clip_def clamp01_def max_atlas_value_def)

lemma clamp01_range: "0 \<le> clamp01 x \<and> clamp01 x \<le> 1"
  by (simp add: clamp01_def)

lemma curve_range: "0 \<le> clamp01 x powr (7 / 10) * 255 \<and> clamp01 x powr (7 / 10) * 255 \<le> 255"
proof -
  have "clamp01 x powr (7 / 10) \<le> 1"
    using clamp01_range [of x] by (intro powr_le1) simp_all
  then show ?thesis by simp
qed

lemma grayscale_cell_spec: "grayscale_cell p = Inr (direct_channel_spec (fst p))"
proof -
  let ?v = "clamp01 (real (fst p) / 37) powr (7 / 10) * 255"
  have v: "enhanced (normalized (grayscale_value p)) * 255 = ?v"
    by (simp add: enhanced_def normalized_clamp01 grayscale_value_def)
  from curve_range [of "real (fst p) / 37"] have "0 \<le> ?v" and "?v < 256" by simp_all
  then have "astype_uint8 ?v = Inr (nat \<lfloor>?v\<rfloor>)"
    by (simp add: astype_uint8_def py_int_def)
  with v show ?thesis
    by (simp add: grayscale_cell_def direct_channel_spec_def)
qed

lemma direct_channel_spec_le: "direct_channel_spec raw \<le> 255"
proof -
  have "\<lfloor>clamp01 (real raw / 37) powr (7 / 10) * 255\<rfloor> \<le> \<lfloor>255 :: real\<rfloor>"
    using curve_range [of "real raw / 37"] by (intro floor_mono) simp
  then have "\<lfloor>clamp01 (real raw / 37) powr (7 / 10) * 255\<rfloor> \<le> 255"
    by simp
  then show ?thesis
    by (simp add: direct_channel_spec_def nat_le_iff)
qed

lemma direct_channel_spec_zero: "direct_channel_spec 0 = 0"
  by (simp add: direct_channel_spec_def clamp01_def)

lemma direct_channel_spec_saturated: "37 \<le> raw \<Longrightarrow> direct_channel_spec raw = 255"
  by (simp add: direct_channel_spec_def clamp01_def)

lemma grayscale_lightmap_spec:
  "grayscale_lightmap img = Inr (map (map (\<lambda>p. direct_channel_spec (fst p))) img)"
  unfolding grayscale_lightmap_def
  by (intro collect_grid_all_Inr) (rule grayscale_cell_spec)


lemma curve_power10:
  fixes x :: real
  assumes "0 \<le> x"
  shows "(x powr (7 / 10) * 255) ^ 10 = x ^ 7 * 255 ^ 10"
proof (cases "x = 0")
  case True
  then show ?thesis by simp
next
  case False
  then have "(x powr (7 / 10)) ^ 10 = x powr (of_nat 10 * (7 / 10))"
    by (rule powr_power)
  also have "\<dots> = x powr 7" by simp
  also from assms have "\<dots> = x ^ 7" by (rule powr_numeral)
  finally show ?thesis by (simp add: power_mult_distrib)
qed

lemma direct_channel_spec_eval:
  assumes "raw \<le> 37"
    and lo: "n ^ 10 * 37 ^ 7 \<le> 255 ^ 10 * raw ^ 7"
    and hi: "255 ^ 10 * raw ^ 7 < (n + 1) ^ 10 * 37 ^ 7"
  shows "direct_channel_spec raw = n"
proof -
  let ?x = "real raw / 37"
  let ?v = "?x powr (7 / 10) * 255"
  from assms(1) have cl: "clamp01 ?x = ?x" by (simp add: clamp01_def)
  have v10: "?v ^ 10 = real (255 ^ 10 * raw ^ 7) / real (37 ^ 7)"
    using curve_power10 [of ?x] by (simp add: power_divide)
  have v0: "0 \<le> ?v" by simp
  from lo have "real (n ^ 10 * 37 ^ 7) \<le> real (255 ^ 10 * raw ^ 7)"
    by (rule of_nat_mono)
  then have "real n ^ 10 \<le> ?v ^ 10"
    unfolding v10 by (simp add: pos_le_divide_eq)
  then have "real n ^ Suc 9 \<le> ?v ^ Suc 9" by simp
  then have ge: "real n \<le> ?v" using v0 by (rule power_le_imp_le_base)
  from hi have "real (255 ^ 10 * raw ^ 7) < real ((n + 1) ^ 10 * 37 ^ 7)"
    by (simp only: of_nat_less_iff)
  then have "?v ^ 10 < (real n + 1) ^ 10"
    unfolding v10 by (simp add: pos_divide_less_eq add.commute)
  then have lt: "?v < real n + 1"
    by (rule power_less_imp_less_base) simp
  from ge lt have "\<lfloor>?v\<rfloor> = int n"
    by (intro floor_unique) simp_all
  then have "nat \<lfloor>?v\<rfloor> = n" by simp
  then show ?thesis
    unfolding direct_channel_spec_def cl .
qed

lemma direct_channel_spec_12: "direct_channel_spec 12 = 115"
  by (rule direct_channel_spec_eval) simp_all



text \<open>The whole curve on the range of the atlas, raw values 0 to 37.\<close>

lemma upt38:
  "[0..<38] = [0, 1, 2, 3, 4, 5, 6, 7, 8, 9, 10, 11, 12, 13, 14, 15, 16, 17, 18, 19, 20,
     21, 22, 23, 24, 25, 26, 27, 28, 29, 30, 31, 32, 33, 34, 35, 36, 37]"
  by (simp add: upt_rec)

lemma direct_channel_curve:
  "map direct_channel_spec [0..<38] =
     [0, 20, 33, 43, 53, 62, 71, 79, 87, 94, 102, 109, 115,
      122, 129, 135, 141, 147, 153, 159, 165, 171, 177, 182, 188, 193,
      199, 204, 209, 215, 220, 225, 230, 235, 240, 245, 250, 255]"
proof -
  have v1: "direct_channel_spec 1 = 20"
    by (rule direct_channel_spec_eval) simp_all
  have v2: "direct_channel_spec 2 = 33"
    by (rule direct_channel_spec_eval) simp_all
  have v3: "direct_channel_spec 3 = 43"
    by (rule direct_channel_spec_eval) simp_all
  have v4: "direct_channel_spec 4 = 53"
    by (rule direct_channel_spec_eval) simp_all
  have v5: "direct_channel_spec 5 = 62"
    by (rule direct_channel_spec_eval) simp_all
  have v6: "direct_channel_spec 6 = 71"
    by (rule direct_channel_spec_eval) simp_all
  have v7: "direct_channel_spec 7 = 79"
    by (rule direct_channel_spec_eval) simp_all
  have v8: "direct_channel_spec 8 = 87"
    by (rule direct_channel_spec_eval) simp_all
  have v9: "direct_channel_spec 9 = 94"
    by (rule direct_channel_spec_eval) simp_all
  have v10: "direct_channel_spec 10 = 102"
    by (rule direct_channel_spec_eval) simp_all
  have v11: "direct_channel_spec 11 = 109"
    by (rule direct_channel_spec_eval) simp_all
  have v12: "direct_channel_spec 12 = 115"
    by (rule direct_channel_spec_eval) simp_all
  have v13: "direct_channel_spec 13 = 122"
    by (rule direct_channel_spec_eval) simp_all
  have v14: "direct_channel_spec 14 = 129"
    by (rule direct_channel_spec_eval) simp_all
  have v15: "direct_channel_spec 15 = 135"
    by (rule direct_channel_spec_eval) simp_all
  have v16: "direct_channel_spec 16 = 141"
    by (rule direct_channel_spec_eval) simp_all
  have v17: "direct_channel_spec 17 = 147"
    by (rule direct_channel_spec_eval) simp_all
  have v18: "direct_channel_spec 18 = 153"
    by (rule direct_channel_spec_eval) simp_all
  have v19: "direct_channel_spec 19 = 159"
    by (rule direct_channel_spec_eval) simp_all
  have v20: "direct_channel_spec 20 = 165"
    by (rule direct_channel_spec_eval) simp_all
  have v21: "direct_channel_spec 21 = 171"
    by (rule direct_channel_spec_eval) simp_all
  have v22: "direct_channel_spec 22 = 177"
    by (rule direct_channel_spec_eval) simp_all
  have v23: "direct_channel_spec 23 = 182"
    by (rule direct_channel_spec_eval) simp_all
  have v24: "direct_channel_spec 24 = 188"
    by (rule direct_channel_spec_eval) simp_all
  have v25: "direct_channel_spec 25 = 193"
    by (rule direct_channel_spec_eval) simp_all
  have v26: "direct_channel_spec 26 = 199"
    by (rule direct_channel_spec_eval) simp_all
  have v27: "direct_channel_spec 27 = 204"
    by (rule direct_channel_spec_eval) simp_all
  have v28: "direct_channel_spec 28 = 209"
    by (rule direct_channel_spec_eval) simp_all
  have v29: "direct_channel_spec 29 = 215"
    by (rule direct_channel_spec_eval) simp_all
  have v30: "direct_channel_spec 30 = 220"
    by (rule direct_channel_spec_eval) simp_all
  have v31: "direct_channel_spec 31 = 225"
    by (rule direct_channel_spec_eval) simp_all
  have v32: "direct_channel_spec 32 = 230"
    by (rule direct_channel_spec_eval) simp_all
  have v33: "direct_channel_spec 33 = 235"
    by (rule direct_channel_spec_eval) simp_all
  have v34: "direct_channel_spec 34 = 240"
    by (rule direct_channel_spec_eval) simp_all
  have v35: "direct_channel_spec 35 = 245"
    by (rule direct_channel_spec_eval) simp_all
  have v36: "direct_channel_spec 36 = 250"
    by (rule direct_channel_spec_eval) simp_all
  show ?thesis
    unfolding upt38 list.map
    by (simp only: direct_channel_spec_zero direct_channel_spec_saturated [of 37, simplified]
        v1 v2 v3 v4 v5 v6 v7 v8 v9 v10 v11 v12
        v13 v14 v15 v16 v17 v18 v19 v20 v21 v22 v23 v24
        v25 v26 v27 v28 v29 v30 v31 v32 v33 v34 v35 v36)
qed

text \<open>
  Claim C6: in the direct-channel strategy the cell computed for a pixel is the red
  channel normalised against 37, clamped to \<open>[0, 1]\<close>, raised to the power 0.7, multiplied
  by 255 and truncated; the conversion to 8 bits is always defined, the result is at most
  255, and a raw value of 0 gives 0.
\<close>

theorem direct_channel_formula:
  "grayscale_cell p = Inr (direct_channel_spec (fst p))
   \<and> direct_channel_spec (fst p) \<le> 255
   \<and> grayscale_cell (0, g, b) = Inr 0
   \<and> grayscale_lightmap img = Inr (map (map (\<lambda>p. direct_channel_spec (fst p))) img)"
  using grayscale_cell_spec [of p] grayscale_cell_spec [of "(0, g, b)"]
  by (simp add: direct_channel_spec_le direct_channel_spec_zero grayscale_lightmap_spec)

lemma process_grayscale_atlas_spec:
  "process_grayscale_atlas img =
     (case Contrast_enhance 1.2 (map (map direct_channel_spec) (map (map fst) img)) of
        Inl e \<Rightarrow> Inl e
      | Inr contrasted \<Rightarrow> Inr (convert_RGB contrasted))"
  by (simp add: process_grayscale_atlas_def grayscale_lightmap_spec comp_def)

text \<open>
  Claim C10: the direct-channel strategy reads the red channel only. Two grids with the
  same red channels, whatever their green and blue channels, give the same lightmap and
  the same final image.
\<close>

theorem direct_channel_reads_red_only:
  assumes "map (map fst) img1 = map (map fst) img2"
  shows "grayscale_lightmap img1 = grayscale_lightmap img2
         \<and> process_grayscale_atlas img1 = process_grayscale_atlas img2
         \<and> (\<forall>r g b g' b'. grayscale_cell (r, g, b) = grayscale_cell (r, g', b'))"
proof -
  have "map (map (\<lambda>p. direct_channel_spec (fst p))) img
          = map (map direct_channel_spec) (map (map fst) img)" for img :: "pixel list list"
    by (simp add: comp_def)
  with assms have "grayscale_lightmap img1 = grayscale_lightmap img2"
    by (simp only: grayscale_lightmap_spec)
  moreover from assms have "process_grayscale_atlas img1 = process_grayscale_atlas img2"
    by (simp only: process_grayscale_atlas_spec)
  moreover have "\<forall>r g b g' b'. grayscale_cell (r, g, b) = grayscale_cell (r, g', b')"
    by (simp add: grayscale_cell_spec)
  ultimately show ?thesis by simp
qed

theorem direct_channel_reads_red_only_witness:
  "process_grayscale_atlas [[(37, 0, 255), (0, 200, 9)]]
     = process_grayscale_atlas [[(37, 37, 37), (0, 0, 0)]]
   \<and> process_grayscale_atlas [[(37, 37, 37), (0, 0, 0)]] = Inr [[(255, 255, 255), (0, 0, 0)]]
   \<and> grayscale_cell (12, 0, 255) = grayscale_cell (12, 12, 12)
   \<and> grayscale_cell (12, 12, 12) = Inr 115"
proof -
  have h: "map (map fst) ([[(37, 0, 255), (0, 200, 9)]] :: pixel list list)
             = map (map fst) [[(37, 37, 37), (0, 0, 0)]]"
    by simp
  have "process_grayscale_atlas [[(37, 37, 37), (0, 0, 0)]] = Inr [[(255, 255, 255), (0, 0, 0)]]"
    by (simp add: process_grayscale_atlas_spec direct_channel_spec_zero
        direct_channel_spec_saturated decode_defs py_int_def)
  moreover have "grayscale_cell (12, 12, 12) = Inr 115"
    by (simp add: grayscale_cell_spec direct_channel_spec_12)
  ultimately show ?thesis
    using direct_channel_reads_red_only [OF h] by metis
qed

subsection \<open>The range of the values\<close>

lemma contrast_in_range:
  assumes "\<not> (0 \<le> factor \<and> factor \<le> 1)" and "Contrast_enhance factor img = Inr out"
  shows "gray_in_range out"
proof -
  from Contrast_enhance_Inr [OF assms(2)] obtain g where
    "out = map (map (blend_pixel factor g)) img" by blast
  with assms(1) show ?thesis
    by (simp add: gray_in_range_def list_all_iff blend_pixel_clipped)
qed

lemma convert_RGB_in_range: "gray_in_range img \<Longrightarrow> rgb_in_range (convert_RGB img)"
  by (simp add: gray_in_range_def rgb_in_range_def convert_RGB_def list_all_iff)

lemma grayscale_lightmap_in_range:
  "\<exists>lightmap. grayscale_lightmap img = Inr lightmap \<and> gray_in_range lightmap"
  by (simp add: grayscale_lightmap_spec gray_in_range_def list_all_iff direct_channel_spec_le)

lemma process_grayscale_atlas_in_range:
  assumes "process_grayscale_atlas img = Inr out"
  shows "rgb_in_range out"
proof -
  from assms obtain lm c where
    "Contrast_enhance 1.2 lm = Inr c" and out: "out = convert_RGB c"
    by (auto simp: process_grayscale_atlas_def split: sum.splits)
  then have "gray_in_range c"
    by (intro contrast_in_range [of "1.2" lm c]) simp_all
  with out show ?thesis by (simp add: convert_RGB_in_range)
qed

lemma process_grayscale_atlas_total:
  assumes "concat img \<noteq> []"
  shows "\<exists>out. process_grayscale_atlas img = Inr out"
proof -
  let ?lm = "map (map direct_channel_spec) (map (map fst) img)"
  from assms have "concat ?lm \<noteq> []"
    by (simp only: concat_map_map_Nil not_False_eq_True)
  from Contrast_enhance_nonempty [OF this, of "1.2"] show ?thesis
    by (auto simp: process_grayscale_atlas_spec)
qed

lemma lightmap_array_in_range:
  assumes "lightmap_array color_mapping kmeans img = Inr lightmap"
  shows "gray_in_range lightmap"
  unfolding gray_in_range_def
proof (rule collect_grid_Inr_all)
  show "collect_grid (lightmap_cell color_mapping kmeans) img = Inr lightmap"
    using assms by (simp add: lightmap_array_def)
  show "\<And>x v. lightmap_cell color_mapping kmeans x = Inr v \<Longrightarrow> v \<le> 255"
    by (auto simp: lightmap_cell_def store_uint8_def split: if_splits)
qed

lemma decode_in_range:
  assumes "decode_atlas_to_lightmap_kmeans color_mapping kmeans img = Inr out"
  shows "rgb_in_range out"
proof -
  from assms obtain lm c where
    "Contrast_enhance 1.3 lm = Inr c" and out: "out = convert_RGB c"
    by (auto simp: decode_atlas_to_lightmap_kmeans_def split: sum.splits)
  then have "gray_in_range c"
    by (intro contrast_in_range [of "1.3" lm c]) simp_all
  with out show ?thesis by (simp add: convert_RGB_in_range)
qed


text \<open>
  Claim C8: every value the pipeline produces lies in \<open>[0, 255]\<close>. The direct-channel
  lightmap always exists and is in range, because the normalised value is clamped before
  the curve; the lightmap of the classified strategy is in range whenever it is
  produced; the contrast enhancement with a factor above 1 clips its result; so both
  final images are in range, and they exist for every grid with at least one pixel (for
  the classified strategy, with the intensities of the mapping in \<open>[0, 255]\<close>).
\<close>

theorem pipeline_values_in_range:
  "(\<exists>lightmap. grayscale_lightmap img = Inr lightmap \<and> gray_in_range lightmap)
   \<and> (concat img \<noteq> [] \<longrightarrow>
        (\<exists>out. process_grayscale_atlas img = Inr out \<and> rgb_in_range out))
   \<and> (\<forall>lightmap. lightmap_array color_mapping kmeans img = Inr lightmap \<longrightarrow>
        gray_in_range lightmap)
   \<and> (\<forall>out. decode_atlas_to_lightmap_kmeans color_mapping kmeans img = Inr out \<longrightarrow>
        rgb_in_range out)
   \<and> ((\<forall>cid e. color_mapping cid = Some e \<longrightarrow> 0 \<le> intensity e \<and> intensity e \<le> 255)
        \<and> concat img \<noteq> [] \<longrightarrow>
        (\<exists>out. decode_atlas_to_lightmap_kmeans color_mapping kmeans img = Inr out
           \<and> rgb_in_range out))
   \<and> (\<forall>out. 1 < factor \<and> Contrast_enhance factor gray = Inr out \<longrightarrow> gray_in_range out)"
proof (intro conjI allI impI)
  show "\<exists>lightmap. grayscale_lightmap img = Inr lightmap \<and> gray_in_range lightmap"
    by (rule grayscale_lightmap_in_range)
next
  assume "concat img \<noteq> []"
  from process_grayscale_atlas_total [OF this]
  show "\<exists>out. process_grayscale_atlas img = Inr out \<and> rgb_in_range out"
    using process_grayscale_atlas_in_range by blast
next
  fix lightmap assume "lightmap_array color_mapping kmeans img = Inr lightmap"
  then show "gray_in_range lightmap" by (rule lightmap_array_in_range)
next
  fix out assume "decode_atlas_to_lightmap_kmeans color_mapping kmeans img = Inr out"
  then show "rgb_in_range out" by (rule decode_in_range)
next
  assume a: "(\<forall>cid e. color_mapping cid = Some e \<longrightarrow> 0 \<le> intensity e \<and> intensity e \<le> 255)
        \<and> concat img \<noteq> []"
  from decode_total [of color_mapping img kmeans] a
  obtain out where "decode_atlas_to_lightmap_kmeans color_mapping kmeans img = Inr out"
    by blast
  then show "\<exists>out. decode_atlas_to_lightmap_kmeans color_mapping kmeans img = Inr out
           \<and> rgb_in_range out"
    using decode_in_range by blast
next
  fix out assume "1 < factor \<and> Contrast_enhance factor gray = Inr out"
  then show "gray_in_range out"
    by (intro contrast_in_range [of factor gray out]) simp_all
qed

theorem pipeline_values_in_range_witness:
  "process_grayscale_atlas [[(37, 37, 37), (0, 0, 0), (12, 12, 12)]]
     = Inr [[(255, 255, 255), (0, 0, 0), (113, 113, 113)]]
   \<and> rgb_in_range [[(255, 255, 255), (0, 0, 0), (113, 113, 113)]]"
proof -
  have ne: "concat [[(37, 37, 37), (0, 0, 0), (12, 12, 12)]] \<noteq> ([] :: pixel list)"
    by simp
  have run: "process_grayscale_atlas [[(37, 37, 37), (0, 0, 0), (12, 12, 12)]]
     = Inr [[(255, 255, 255), (0, 0, 0), (113, 113, 113)]]"
    by (simp add: process_grayscale_atlas_spec direct_channel_spec_zero
        direct_channel_spec_saturated direct_channel_spec_12 decode_defs py_int_def)
  from pipeline_values_in_range [of "[[(37, 37, 37), (0, 0, 0), (12, 12, 12)]]"] ne run
  show ?thesis by simp
qed

end
